theory Spec2Isabelle
  imports Main
begin

section \<open>JavaScript values shared by the sources\<close>

text \<open>
  A thrown value or a rejected promise is an \<open>error\<close>; a function that may throw returns
  \<open>error + 'a\<close>, with \<open>Inl\<close> for the throw.
\<close>

datatype error = Thrown string

text \<open>
  Times are milliseconds since the epoch, as \<open>Date.now()\<close> and \<open>new Date().getTime()\<close>
  return them: integers. The lock record of the mutex is the text \<open>String(n)\<close> of such an
  integer, read back with \<open>Number(text)\<close>. \<open>String_js\<close> and \<open>Number_js\<close> are these two
  conversions on decimal integers; \<open>None\<close> stands for \<open>NaN\<close>. The empty text converts to
  \<open>0\<close>, as in JavaScript. Texts in the other numeric notations of JavaScript (fractions,
  exponents, radix prefixes, surrounding blanks) are never written by this code and are
  read as \<open>NaN\<close> here.
\<close>

definition digit_char :: "nat \<Rightarrow> char" where
  "digit_char d = ''0123456789'' ! (d mod 10)"

function nat_digits :: "nat \<Rightarrow> string" where
  "nat_digits n =
     (if n < 10 then [digit_char n] else nat_digits (n div 10) @ [digit_char (n mod 10)])"
  by pat_completeness auto
termination
  by (relation "measure (\<lambda>n. n)") auto

declare nat_digits.simps [simp del]

definition String_js :: "int \<Rightarrow> string" where
  "String_js i = (if i < 0 then CHR ''-'' # nat_digits (nat (- i)) else nat_digits (nat i))"

definition digit_val :: "char \<Rightarrow> nat option" where
  "digit_val c =
     (let k = (of_char c :: nat) in if 48 \<le> k \<and> k \<le> 57 then Some (k - 48) else None)"

fun digits_val :: "nat \<Rightarrow> string \<Rightarrow> nat option" where
  "digits_val acc [] = Some acc"
| "digits_val acc (c # cs) =
     (case digit_val c of None \<Rightarrow> None | Some d \<Rightarrow> digits_val (10 * acc + d) cs)"

definition Number_js :: "string \<Rightarrow> int option" where
  "Number_js s =
     (case s of
        [] \<Rightarrow> Some 0
      | c # cs \<Rightarrow>
          if c = CHR ''-'' then
            (if cs = [] then None else map_option (\<lambda>n. - int n) (digits_val 0 cs))
          else if c = CHR ''+'' then
            (if cs = [] then None else map_option int (digits_val 0 cs))
          else map_option int (digits_val 0 s))"

section \<open>The cross-context mutex (\<open>useMutex\<close>)\<close>

text \<open>
  The fallback lock works on \<open>localStorage\<close> and the clock, both shared with the other
  browsing contexts. What this context does to them, and when it runs the callback or
  sleeps, is recorded in a trace, so that "the callback never ran" and "nothing was
  deleted" are statements about a value.
\<close>

datatype event = SetItem string string | RemoveItem string | CallbackRun | Slept nat

record world =
  localStorage :: "string \<rightharpoonup> string"
  clock :: int
  trace :: "event list"

text \<open>
  The callback and the other contexts act on the shared part of the world only: the
  storage and the clock. \<open>env i\<close> is what happens during the \<open>i\<close>-th sleep of the loop (other
  tabs taking or releasing the lock, time passing).
\<close>

type_synonym ambient = "(string \<rightharpoonup> string) \<times> int"
type_synonym callback = "ambient \<Rightarrow> (error + unit) \<times> ambient"
type_synonym environment = "nat \<Rightarrow> ambient \<Rightarrow> ambient"

definition timeout :: nat where
  "timeout = 50"

definition maxRetries :: nat where
  "maxRetries = 10"

definition internalKey :: "string \<Rightarrow> string" where
  "internalKey key = ''directus-mutex-'' @ key"

definition getItem :: "string \<Rightarrow> world \<Rightarrow> string option" where
  "getItem k w = localStorage w k"

definition setItem :: "string \<Rightarrow> string \<Rightarrow> world \<Rightarrow> world" where
  "setItem k v w = w\<lparr>localStorage := (localStorage w)(k \<mapsto> v), trace := trace w @ [SetItem k v]\<rparr>"

definition removeItem :: "string \<Rightarrow> world \<Rightarrow> world" where
  "removeItem k w = w\<lparr>localStorage := (localStorage w)(k := None), trace := trace w @ [RemoveItem k]\<rparr>"

definition sleep :: "nat \<Rightarrow> environment \<Rightarrow> nat \<Rightarrow> world \<Rightarrow> world" where
  "sleep ms env i w =
     (let (st, ck) = env i (localStorage w, clock w)
      in w\<lparr>localStorage := st, clock := ck, trace := trace w @ [Slept ms]\<rparr>)"

definition run_callback :: "callback \<Rightarrow> world \<Rightarrow> (error + unit) \<times> world" where
  "run_callback cb w =
     (let (r, (st, ck)) = cb (localStorage w, clock w)
      in (r, w\<lparr>localStorage := st, clock := ck, trace := trace w @ [CallbackRun]\<rparr>))"

text \<open>
  The test of the loop, \<open>!mutex || Number(mutex) > Date.now() + expiresMs\<close>: \<open>!mutex\<close> holds
  of \<open>null\<close> and of the empty text; a comparison with \<open>NaN\<close> is false.
\<close>

definition mutex_free :: "string option \<Rightarrow> int \<Rightarrow> int \<Rightarrow> bool" where
  "mutex_free mutex now expiresMs =
     (case mutex of
        None \<Rightarrow> True
      | Some m \<Rightarrow>
          if m = [] then True
          else (case Number_js m of None \<Rightarrow> False | Some v \<Rightarrow> v > now + expiresMs))"

text \<open>
  The \<open>do ... while (retries < maxRetries)\<close> loop of \<open>localStorageLock\<close>, from the value of
  \<open>retries\<close> it is entered with. The result is the outcome of the \<open>try\<close> block (a throw of
  the callback, or normal completion), \<open>hasAcquiredMutex\<close>, and the world. The two readings
  of \<open>Date.now()\<close> in one round, in the test and in the record written, are the same value.
\<close>

function lock_loop ::
  "string \<Rightarrow> int \<Rightarrow> callback \<Rightarrow> environment \<Rightarrow> nat \<Rightarrow> world \<Rightarrow> (error + unit) \<times> bool \<times> world"
where
  "lock_loop ikey expiresMs cb env retries w =
     (let mutex = getItem ikey w in
      if mutex_free mutex (clock w) expiresMs then
        (let w1 = setItem ikey (String_js (clock w + expiresMs)) w;
             (r, w2) = run_callback cb w1
         in (r, True, w2))
      else
        (let w1 = sleep timeout env retries w;
             retries' = retries + 1
         in if retries' < maxRetries then lock_loop ikey expiresMs cb env retries' w1
            else (Inr (), False, w1)))"
  by pat_completeness auto
termination
  by (relation "measure (\<lambda>(ikey, expiresMs, cb, env, retries, w). maxRetries - retries)") auto

declare lock_loop.simps [simp del]

text \<open>\<open>localStorageLock\<close>: the loop from \<open>retries = 0\<close>, then the \<open>finally\<close> block.\<close>

definition localStorageLock ::
  "string \<Rightarrow> int \<Rightarrow> callback \<Rightarrow> environment \<Rightarrow> world \<Rightarrow> (error + unit) \<times> world"
where
  "localStorageLock key expiresMs cb env w =
     (let (r, hasAcquiredMutex, w1) = lock_loop (internalKey key) expiresMs cb env 0 w
      in (r, if hasAcquiredMutex then removeItem (internalKey key) w1 else w1))"

text \<open>
  \<open>acquireMutex\<close>: \<open>navigator.locks.request\<close> when the platform has it (\<open>native\<close>, the
  platform's primitive, is a parameter), the fallback otherwise.
\<close>

definition acquireMutex ::
  "bool \<Rightarrow> (string \<Rightarrow> callback \<Rightarrow> world \<Rightarrow> (error + unit) \<times> world) \<Rightarrow>
   string \<Rightarrow> int \<Rightarrow> callback \<Rightarrow> environment \<Rightarrow> world \<Rightarrow> (error + unit) \<times> world"
where
  "acquireMutex useWebLock native key expiresMs cb env w =
     (if useWebLock then native (internalKey key) cb w
      else localStorageLock key expiresMs cb env w)"

text \<open>
  The world that the \<open>j\<close>-th further test of the loop sees when every test before it failed:
  \<open>j\<close> sleeps, the first of them with retry count \<open>r\<close>.
\<close>

fun polled :: "environment \<Rightarrow> nat \<Rightarrow> nat \<Rightarrow> world \<Rightarrow> world" where
  "polled env r 0 w = w"
| "polled env r (Suc j) w = polled env (Suc r) j (sleep timeout env r w)"

section \<open>The authentication session (\<open>authentication\<close>)\<close>

subsection \<open>Data\<close>

datatype AuthenticationMode = Json | Cookie | Session

definition mode_name :: "AuthenticationMode \<Rightarrow> string" where
  "mode_name m = (case m of Json \<Rightarrow> ''json'' | Cookie \<Rightarrow> ''cookie'' | Session \<Rightarrow> ''session'')"

record AuthenticationData =
  access_token :: "string option"
  refresh_token :: "string option"
  expires :: "int option"
  expires_at :: "int option"

record AuthenticationConfig =
  msRefreshBeforeExpires :: int
  autoRefresh :: bool
  credentials :: "string option"

definition defaultConfigValues :: AuthenticationConfig where
  "defaultConfigValues = \<lparr>msRefreshBeforeExpires = 30000, autoRefresh = True, credentials = None\<rparr>"

definition MAX_SAFE_INTEGER :: int where
  "MAX_SAFE_INTEGER = 9007199254740991"

record LoginOptions =
  otp :: "string option"
  login_mode :: "AuthenticationMode option"

text \<open>
  A network call: the path handed to \<open>getRequestUrl\<close>, the fields of the JSON body in the
  order they are set, and \<open>fetchOptions.credentials\<close>.
\<close>

record request =
  path :: string
  body :: "(string \<times> string) list"
  fetch_credentials :: "string option"

text \<open>
  Messages of the real-time channel. An inbound message is read through \<open>msg?.type\<close>,
  \<open>msg?.status\<close>, \<open>msg?.refresh_token\<close> and \<open>msg?.error?.code\<close>; a missing field, or a missing
  message, reads as \<open>None\<close>.
\<close>

record inbound =
  msg_type :: "string option"
  msg_status :: "string option"
  msg_refresh_token :: "string option"
  msg_error_code :: "string option"

datatype outbound =
  AuthCredentials string string
| AuthRefreshToken string

text \<open>
  The platform the session runs on: it decides how \<open>setTimeout\<close> reads a delay.
\<close>

datatype platform = Browser | Node

text \<open>
  The session: the variables of the closure (\<open>mode\<close> to \<open>realtimeRefresh\<close>, and the storage),
  and the part of the environment they refer to. A promise and a timer are named by a
  number; \<open>inflight\<close> lists the refresh calls sent and not yet answered, \<open>outcome\<close> holds how
  each refresh promise settled, \<open>timers\<close> the pending timers with the time they are due,
  \<open>listeners\<close> the installed message handlers, \<open>outbox\<close> the messages sent on the channel,
  \<open>connects\<close> the number of calls of \<open>connect\<close>, \<open>platform\<close> the platform. The storage cell
  is an option because the code reads it through \<open>?.\<close>.
\<close>

record session =
  mode :: AuthenticationMode
  authConfig :: AuthenticationConfig
  features :: "string list"
  storage :: "AuthenticationData option"
  refreshPromise :: "nat option"
  refreshTimeout :: "nat option"
  realtimeHandler :: "nat option"
  realtimeRefresh :: "string option"
  next_id :: nat
  requests :: "request list"
  inflight :: "nat list"
  outcome :: "nat \<rightharpoonup> error + AuthenticationData"
  timers :: "(nat \<times> int) list"
  listeners :: "nat list"
  outbox :: "outbound list"
  connects :: nat
  platform :: platform

definition null_data :: AuthenticationData where
  "null_data = \<lparr>access_token = None, refresh_token = None, expires = None, expires_at = None\<rparr>"

text \<open>
  Modelled from the spec: the credential store (\<open>memoryStorage\<close>, whose file is not among the
  sources) is a passive value holder: \<open>get\<close> returns the value last \<open>set\<close>, and the all-null
  record before any \<open>set\<close>. The session starts with it; \<open>authentication\<close> adds its name to the
  features of the client. \<open>cfg\<close> is \<open>authConfig\<close>, the defaults overridden by the caller's
  configuration; \<open>pf\<close> is the platform the client runs on.
\<close>

definition authentication ::
  "platform \<Rightarrow> AuthenticationMode \<Rightarrow> AuthenticationConfig \<Rightarrow> string list \<Rightarrow> session"
where
  "authentication pf m cfg client_features =
     \<lparr>mode = m, authConfig = cfg, features = client_features @ [''authentication''],
      storage = Some null_data, refreshPromise = None, refreshTimeout = None,
      realtimeHandler = None, realtimeRefresh = None,
      next_id = 1, requests = [], inflight = [], outcome = Map.empty, timers = [],
      listeners = [], outbox = [], connects = 0, platform = pf\<rparr>"

text \<open>
  Truthiness of a number that may be \<open>null\<close> or \<open>undefined\<close>. (A text that may be \<open>null\<close> is
  truthy when it is there and not empty; the definitions below write that test out.)
\<close>

definition truthy_num :: "int option \<Rightarrow> bool" where
  "truthy_num x = (case x of None \<Rightarrow> False | Some n \<Rightarrow> n \<noteq> 0)"

subsection \<open>Timers\<close>

text \<open>
  \<open>setTimeout\<close> returns a fresh handle, which is truthy (a positive number in a browser, an
  object in Node), so \<open>if (refreshTimeout)\<close> is the test for \<open>Some\<close>. \<open>clearTimeout\<close> of a
  handle that is no longer pending does nothing.
\<close>

text \<open>
  The platform does not take every delay as it is given. A browser converts the delay to a
  32-bit signed integer (modulo \<open>2^32\<close>) and takes a negative result as 0; Node takes a
  delay below 1 or above \<open>TIMEOUT_MAX\<close> as 1. Both leave a delay from 1 to \<open>TIMEOUT_MAX\<close>
  (about 24.8 days) as it is. \<open>timer_delay\<close> is the delay the platform waits.
\<close>

definition TIMEOUT_MAX :: int where
  "TIMEOUT_MAX = 2147483647"

definition timer_delay :: "platform \<Rightarrow> int \<Rightarrow> int" where
  "timer_delay pf delay =
     (case pf of
        Browser \<Rightarrow>
          (let d = (delay + 2147483648) mod 4294967296 - 2147483648
           in if d < 0 then 0 else d)
      | Node \<Rightarrow> (if 1 \<le> delay \<and> delay \<le> TIMEOUT_MAX then delay else 1))"

definition setTimeout :: "int \<Rightarrow> int \<Rightarrow> session \<Rightarrow> nat \<times> session" where
  "setTimeout delay now s =
     (next_id s,
      s\<lparr>timers := timers s @ [(next_id s, now + timer_delay (platform s) delay)],
        next_id := Suc (next_id s)\<rparr>)"

definition clearTimeout :: "nat \<Rightarrow> session \<Rightarrow> session" where
  "clearTimeout h s = s\<lparr>timers := filter (\<lambda>t. fst t \<noteq> h) (timers s)\<rparr>"

subsection \<open>Storing credentials and refreshing\<close>

definition resetStorage :: "session \<Rightarrow> session" where
  "resetStorage s = s\<lparr>storage := Some null_data\<rparr>"

text \<open>
  The body of \<open>refresh\<close> and \<open>logout\<close>: \<open>{ mode }\<close>, and the refresh token when the mode is
  \<open>json\<close> and \<open>authData?.refresh_token\<close> is truthy.
\<close>

definition token_body :: "AuthenticationMode \<Rightarrow> AuthenticationData option \<Rightarrow> (string \<times> string) list" where
  "token_body m authData =
     [(''mode'', mode_name m)] @
     (case authData of
        None \<Rightarrow> []
      | Some d \<Rightarrow>
          (case refresh_token d of
             None \<Rightarrow> []
           | Some r \<Rightarrow> if m = Json \<and> r \<noteq> [] then [(''refresh_token'', r)] else []))"

text \<open>
  \<open>awaitRefresh\<close> up to its network call: read the record, reset the storage, send the
  request. The call is named by the promise \<open>refresh\<close> will return. (\<open>await storage.get()\<close>
  is taken as immediate.)
\<close>

definition awaitRefresh_call :: "session \<Rightarrow> nat \<times> session" where
  "awaitRefresh_call s =
     (let authData = storage s;
          s1 = resetStorage s;
          rq = \<lparr>path = ''/auth/refresh'', body = token_body (mode s1) authData,
                fetch_credentials = credentials (authConfig s1)\<rparr>;
          p = next_id s1
      in (p, s1\<lparr>requests := requests s1 @ [rq], inflight := inflight s1 @ [p],
                next_id := Suc p\<rparr>))"

text \<open>\<open>refresh\<close>: start \<open>awaitRefresh\<close>, keep its promise in \<open>refreshPromise\<close>, return it.\<close>

definition refresh :: "session \<Rightarrow> nat \<times> session" where
  "refresh s = (let (p, s1) = awaitRefresh_call s in (p, s1\<lparr>refreshPromise := Some p\<rparr>))"

text \<open>
  \<open>setCredentials\<close> at clock reading \<open>now\<close>. The record stored is the argument with its
  \<open>expires_at\<close> overwritten.
\<close>

definition stamped :: "int \<Rightarrow> AuthenticationData \<Rightarrow> AuthenticationData" where
  "stamped now data =
     data\<lparr>expires_at := Some (now + (case expires data of None \<Rightarrow> 0 | Some e \<Rightarrow> e))\<rparr>"

text \<open>
  The callback of the refresh timer: forget the handle, refresh, ignore the promise (a
  rejection is caught and dropped).
\<close>

definition timer_callback :: "session \<Rightarrow> session" where
  "timer_callback s = snd (refresh (s\<lparr>refreshTimeout := None\<rparr>))"

definition setCredentials :: "int \<Rightarrow> AuthenticationData \<Rightarrow> session \<Rightarrow> session" where
  "setCredentials now data s =
     (let expires = (case expires data of None \<Rightarrow> 0 | Some e \<Rightarrow> e);
          s1 = s\<lparr>storage := Some (stamped now data)\<rparr>
      in if autoRefresh (authConfig s1) \<and> expires > msRefreshBeforeExpires (authConfig s1)
            \<and> expires < MAX_SAFE_INTEGER
         then
           (let s2 = (case refreshTimeout s1 of None \<Rightarrow> s1 | Some h \<Rightarrow> clearTimeout h s1);
                (h, s3) = setTimeout (expires - msRefreshBeforeExpires (authConfig s2)) now s2
            in s3\<lparr>refreshTimeout := Some h\<rparr>)
         else s1)"

text \<open>
  The rest of \<open>awaitRefresh\<close>, when the network call of promise \<open>p\<close> comes back with \<open>resp\<close> at
  clock reading \<open>now\<close>: a failure rejects the promise; a success stores the credentials and
  fulfils it with them.
\<close>

definition awaitRefresh_resume :: "int \<Rightarrow> nat \<Rightarrow> error + AuthenticationData \<Rightarrow> session \<Rightarrow> session" where
  "awaitRefresh_resume now p resp s =
     (let s1 = s\<lparr>inflight := filter (\<lambda>q. q \<noteq> p) (inflight s)\<rparr>
      in case resp of
           Inl err \<Rightarrow> s1\<lparr>outcome := (outcome s1)(p \<mapsto> Inl err)\<rparr>
         | Inr data \<Rightarrow>
             (let s2 = setCredentials now data s1
              in s2\<lparr>outcome := (outcome s2)(p \<mapsto> Inr (stamped now data))\<rparr>))"

text \<open>A pending timer \<open>h\<close> fires once the clock has reached its due time.\<close>

definition fire :: "int \<Rightarrow> nat \<Rightarrow> session \<Rightarrow> session" where
  "fire now h s =
     (if list_ex (\<lambda>t. fst t = h \<and> snd t \<le> now) (timers s)
      then timer_callback (clearTimeout h s)
      else s)"

subsection \<open>Reading the token\<close>

definition stored_expires_at :: "session \<Rightarrow> int option" where
  "stored_expires_at s = (case storage s of None \<Rightarrow> None | Some d \<Rightarrow> expires_at d)"

definition stored_access_token :: "session \<Rightarrow> string option" where
  "stored_access_token s = (case storage s of None \<Rightarrow> None | Some d \<Rightarrow> access_token d)"

text \<open>
  \<open>refreshIfExpired\<close> up to the \<open>await\<close> inside \<open>activeRefresh\<close>: the result is the promise
  that \<open>activeRefresh\<close> waits for (\<open>None\<close> when \<open>refreshPromise\<close> is \<open>null\<close>).
\<close>

definition refreshIfExpired :: "int \<Rightarrow> session \<Rightarrow> nat option \<times> session" where
  "refreshIfExpired now s =
     (if refreshPromise s \<noteq> None \<or> \<not> truthy_num (stored_expires_at s) then (refreshPromise s, s)
      else
        (case stored_expires_at s of
           None \<Rightarrow> (refreshPromise s, s)
         | Some e \<Rightarrow>
             (let s1 = (if e < now + msRefreshBeforeExpires (authConfig s)
                        then snd (refresh s) else s)
              in (refreshPromise s1, s1))))"

text \<open>
  The rest of \<open>activeRefresh\<close>, once the awaited promise has settled: the \<open>finally\<close> block
  clears \<open>refreshPromise\<close>; a rejection is rethrown. \<open>None\<close> as a result: the promise is still
  pending, the caller stays suspended.
\<close>

definition activeRefresh_resume :: "nat option \<Rightarrow> session \<Rightarrow> ((error + unit) \<times> session) option" where
  "activeRefresh_resume awaited s =
     (case awaited of
        None \<Rightarrow> Some (Inr (), s\<lparr>refreshPromise := None\<rparr>)
      | Some p \<Rightarrow>
          (case outcome s p of
             None \<Rightarrow> None
           | Some (Inl err) \<Rightarrow> Some (Inl err, s\<lparr>refreshPromise := None\<rparr>)
           | Some (Inr data) \<Rightarrow> Some (Inr (), s\<lparr>refreshPromise := None\<rparr>)))"

text \<open>\<open>getToken\<close> after \<open>refreshIfExpired\<close> has suspended on \<open>awaited\<close>.\<close>

definition getToken_resume :: "nat option \<Rightarrow> session \<Rightarrow> ((error + string option) \<times> session) option" where
  "getToken_resume awaited s =
     (case activeRefresh_resume awaited s of
        None \<Rightarrow> None
      | Some (Inl err, s1) \<Rightarrow> Some (Inl err, s1)
      | Some (Inr u, s1) \<Rightarrow> Some (Inr (stored_access_token s1), s1))"


definition setToken :: "string option \<Rightarrow> session \<Rightarrow> session" where
  "setToken tok s =
     s\<lparr>storage := Some \<lparr>access_token = tok, refresh_token = None, expires = None,
                         expires_at = None\<rparr>\<rparr>"

subsection \<open>The real-time channel\<close>

definition msg_field :: "(inbound \<Rightarrow> 'a option) \<Rightarrow> inbound option \<Rightarrow> 'a option" where
  "msg_field f msg = (case msg of None \<Rightarrow> None | Some m \<Rightarrow> f m)"

text \<open>
  \<open>sendMessage\<close> hands a message to the channel. The channel itself, with its connection
  state, is outside these sources: the one place where the code reacts to a send that
  throws is the \<open>try\<close> of \<open>login\<close>, and there the transport's answer is a parameter.
\<close>

definition sendMessage :: "outbound \<Rightarrow> session \<Rightarrow> session" where
  "sendMessage m s = s\<lparr>outbox := outbox s @ [m]\<rparr>"

text \<open>The message handler that \<open>login\<close> installs.\<close>

definition on_message :: "inbound option \<Rightarrow> session \<Rightarrow> session" where
  "on_message msg s =
     (if msg_field msg_type msg = Some ''auth'' then
        (if msg_field msg_status msg = Some ''ok'' then
           s\<lparr>realtimeRefresh := msg_field msg_refresh_token msg\<rparr>
         else if msg_field msg_status msg = Some ''error''
                 \<and> msg_field msg_error_code msg = Some ''TOKEN_EXPIRED'' then
           (case realtimeRefresh s of
              None \<Rightarrow> s
            | Some r \<Rightarrow> if r \<noteq> [] then sendMessage (AuthRefreshToken r) s else s)
         else s)
      else s)"

text \<open>An inbound message runs every installed handler.\<close>

definition ws_receive :: "inbound option \<Rightarrow> session \<Rightarrow> session" where
  "ws_receive msg s = fold (\<lambda>l. on_message msg) (listeners s) s"

text \<open>
  The real-time part of \<open>login\<close>: install the handler, keep its remover, send the
  credentials; when that send throws (\<open>send_throws\<close>, which the transport decides),
  connect and send then.
\<close>

definition realtime_login :: "string \<Rightarrow> string \<Rightarrow> bool \<Rightarrow> session \<Rightarrow> session" where
  "realtime_login email password send_throws s =
     (let l = next_id s;
          s1 = s\<lparr>listeners := listeners s @ [l], realtimeHandler := Some l, next_id := Suc l\<rparr>
      in if send_throws
         then sendMessage (AuthCredentials email password) (s1\<lparr>connects := connects s1 + 1\<rparr>)
         else sendMessage (AuthCredentials email password) s1)"

subsection \<open>Login and logout\<close>

text \<open>\<open>login\<close> up to its network call, and from the answer on.\<close>

definition login_call :: "string \<Rightarrow> string \<Rightarrow> LoginOptions \<Rightarrow> session \<Rightarrow> session" where
  "login_call email password options s =
     (let s1 = resetStorage s;
          authData =
            [(''email'', email), (''password'', password)] @
            (case otp options of None \<Rightarrow> [] | Some c \<Rightarrow> [(''otp'', c)]) @
            [(''mode'', mode_name (case login_mode options of None \<Rightarrow> mode s1 | Some m \<Rightarrow> m))]
      in s1\<lparr>requests := requests s1 @
                [\<lparr>path = ''/auth/login'', body = authData,
                  fetch_credentials = credentials (authConfig s1)\<rparr>]\<rparr>)"

definition login_resume ::
  "int \<Rightarrow> error + AuthenticationData \<Rightarrow> string \<Rightarrow> string \<Rightarrow> bool \<Rightarrow> session \<Rightarrow>
   (error + AuthenticationData) \<times> session"
where
  "login_resume now resp email password send_throws s =
     (case resp of
        Inl err \<Rightarrow> (Inl err, s)
      | Inr data \<Rightarrow>
          (let s1 = setCredentials now data s;
               s2 = (if ''realtime'' \<in> set (features s1)
                     then realtime_login email password send_throws s1 else s1)
           in (Inr (stamped now data), s2)))"

definition login ::
  "int \<Rightarrow> error + AuthenticationData \<Rightarrow> string \<Rightarrow> string \<Rightarrow> LoginOptions \<Rightarrow> bool \<Rightarrow> session \<Rightarrow>
   (error + AuthenticationData) \<times> session"
where
  "login now resp email password options send_throws s =
     login_resume now resp email password send_throws (login_call email password options s)"

text \<open>\<open>logout\<close> up to its network call, and from the answer on.\<close>

definition logout_call :: "session \<Rightarrow> session" where
  "logout_call s =
     s\<lparr>requests := requests s @
          [\<lparr>path = ''/auth/logout'', body = token_body (mode s) (storage s),
            fetch_credentials = credentials (authConfig s)\<rparr>]\<rparr>"

definition logout_resume :: "error + unit \<Rightarrow> session \<Rightarrow> (error + unit) \<times> session" where
  "logout_resume resp s =
     (case resp of
        Inl err \<Rightarrow> (Inl err, s)
      | Inr u \<Rightarrow>
          (let s1 = (case realtimeHandler s of
                       None \<Rightarrow> s
                     | Some l \<Rightarrow> s\<lparr>listeners := filter (\<lambda>x. x \<noteq> l) (listeners s)\<rparr>);
               s2 = (case refreshTimeout s1 of None \<Rightarrow> s1 | Some h \<Rightarrow> clearTimeout h s1)
           in (Inr (), resetStorage s2)))"

definition logout :: "error + unit \<Rightarrow> session \<Rightarrow> (error + unit) \<times> session" where
  "logout resp s = logout_resume resp (logout_call s)"

subsection \<open>Runs of a session\<close>

text \<open>
  The states a session can be in: it starts as \<open>authentication\<close> builds it, and each step is
  one uninterrupted piece of one of its operations, with any answer of the network, any
  clock reading and any inbound message.
\<close>

inductive reachable :: "session \<Rightarrow> bool" where
  start: "reachable (authentication pf m cfg fs)"
| login_sent: "reachable s \<Longrightarrow> reachable (login_call email password options s)"
| login_answered:
    "reachable s \<Longrightarrow> reachable (snd (login_resume now resp email password send_throws s))"
| logout_sent: "reachable s \<Longrightarrow> reachable (logout_call s)"
| logout_answered: "reachable s \<Longrightarrow> reachable (snd (logout_resume resp' s))"
| refresh_called: "reachable s \<Longrightarrow> reachable (snd (refresh s))"
| refresh_answered:
    "reachable s \<Longrightarrow> p \<in> set (inflight s) \<Longrightarrow> reachable (awaitRefresh_resume now p resp s)"
| token_asked: "reachable s \<Longrightarrow> reachable (snd (refreshIfExpired now s))"
| token_read: "reachable s \<Longrightarrow> getToken_resume awaited s = Some (r, s') \<Longrightarrow> reachable s'"
| token_set: "reachable s \<Longrightarrow> reachable (setToken tok s)"
| timer_fired: "reachable s \<Longrightarrow> reachable (fire now h s)"
| message: "reachable s \<Longrightarrow> reachable (ws_receive msg s)"

text \<open>Several \<open>getToken\<close> calls started one after the other, at the given clock readings.\<close>

fun getToken_calls :: "int list \<Rightarrow> session \<Rightarrow> session" where
  "getToken_calls [] s = s"
| "getToken_calls (now # nows) s = getToken_calls nows (snd (refreshIfExpired now s))"

text \<open>
  \<open>n\<close> callers of \<open>getToken\<close> suspended on the same promise, resumed one after the other:
  what each of them gets.
\<close>

fun resume_joined :: "nat \<Rightarrow> nat option \<Rightarrow> session \<Rightarrow> (error + string option) list \<times> session" where
  "resume_joined 0 awaited s = ([], s)"
| "resume_joined (Suc n) awaited s =
     (case getToken_resume awaited s of
        None \<Rightarrow> ([], s)
      | Some (r, s1) \<Rightarrow> (let (rs, s2) = resume_joined n awaited s1 in (r # rs, s2)))"

text \<open>
  The refresh timer is tracked by one variable. \<open>timer_inv\<close>: no timer is pending, or one
  is and \<open>refreshTimeout\<close> holds its handle.
\<close>

definition timer_inv :: "session \<Rightarrow> bool" where
  "timer_inv s =
     (case timers s of [] \<Rightarrow> True | [t] \<Rightarrow> refreshTimeout s = Some (fst t) | _ \<Rightarrow> False)"

section \<open>Concrete inputs\<close>

text \<open>
  For the mutex: other contexts that leave the lock alone while each sleep takes 50 ms, a
  callback that does nothing, a platform lock nobody else holds; a lock record whose
  time (1000) lies before the clock (2000), and one written at 1000 with a lease of 50 ms.
\<close>

definition ticking :: environment where
  "ticking i a = (fst a, snd a + 50)"

definition idle_callback :: callback where
  "idle_callback a = (Inr (), a)"

definition uncontended_native_lock :: "string \<Rightarrow> callback \<Rightarrow> world \<Rightarrow> (error + unit) \<times> world" where
  "uncontended_native_lock k cb w = run_callback cb w"

definition stale_lock :: world where
  "stale_lock =
     \<lparr>localStorage = [internalKey ''auth_refresh'' \<mapsto> ''1000''], clock = 2000, trace = []\<rparr>"

definition held_lock :: world where
  "held_lock =
     \<lparr>localStorage = [internalKey ''auth_refresh'' \<mapsto> ''1050''], clock = 1000, trace = []\<rparr>"

text \<open>
  For the session: a new session in a browser, in \<open>json\<close> mode with the default
  configuration on a client with the real-time feature; credentials as a server issues
  them (with a lifetime of 15 minutes, with none, with one second, with 3000000 seconds,
  which is more than the timers of the platform span); the session after a login at time
  1000; the two inbound messages of the real-time handshake.
\<close>

definition fresh_session :: session where
  "fresh_session = authentication Browser Json defaultConfigValues [''realtime'']"

definition issued :: AuthenticationData where
  "issued =
     \<lparr>access_token = Some ''a'', refresh_token = Some ''r'', expires = Some 900000,
      expires_at = None\<rparr>"

definition no_expiry :: AuthenticationData where
  "no_expiry =
     \<lparr>access_token = Some ''a'', refresh_token = Some ''r'', expires = None, expires_at = None\<rparr>"

definition short_lived :: AuthenticationData where
  "short_lived =
     \<lparr>access_token = Some ''a'', refresh_token = Some ''r'', expires = Some 1000,
      expires_at = None\<rparr>"

definition long_lived :: AuthenticationData where
  "long_lived =
     \<lparr>access_token = Some ''a'', refresh_token = Some ''r'', expires = Some 3000000000,
      expires_at = None\<rparr>"

definition logged_in :: session where
  "logged_in =
     snd (login 1000 (Inr issued) ''admin@example.com'' ''pw''
            \<lparr>otp = None, login_mode = None\<rparr> False fresh_session)"

definition auth_ok :: "string \<Rightarrow> inbound" where
  "auth_ok R =
     \<lparr>msg_type = Some ''auth'', msg_status = Some ''ok'', msg_refresh_token = Some R,
      msg_error_code = None\<rparr>"

definition token_expired :: inbound where
  "token_expired =
     \<lparr>msg_type = Some ''auth'', msg_status = Some ''error'', msg_refresh_token = None,
      msg_error_code = Some ''TOKEN_EXPIRED''\<rparr>"

section \<open>The mutex: what the fallback loop does\<close>

lemma trace_polled: "trace (polled env r j w) = trace w @ replicate j (Slept timeout)"
proof (induction j arbitrary: r w)
  case 0
  then show ?case by simp
next
  case (Suc j)
  show ?case
    by (simp add: Suc.IH sleep_def split_beta Let_def replicate_app_Cons_same)
qed

text \<open>
  When the test fails at every remaining round, the loop ends without the lock, having
  done nothing but sleep.
\<close>

lemma lock_loop_exhausted:
  "retries < maxRetries \<Longrightarrow>
   (\<And>j. j < maxRetries - retries \<Longrightarrow>
      \<not> mutex_free (getItem ikey (polled env retries j w)) (clock (polled env retries j w)) expiresMs) \<Longrightarrow>
   lock_loop ikey expiresMs cb env retries w =
     (Inr (), False, polled env retries (maxRetries - retries) w)"
proof (induction ikey expiresMs cb env retries w rule: lock_loop.induct)
  case (1 ikey expiresMs cb env retries w)
  have busy: "\<not> mutex_free (getItem ikey w) (clock w) expiresMs"
    using "1.prems"(2) [of 0] "1.prems"(1) by simp
  have unfold: "maxRetries - retries = Suc (maxRetries - Suc retries)"
    using "1.prems"(1) by simp
  show ?case
  proof (cases "retries + 1 < maxRetries")
    case True
    have later: "\<not> mutex_free
          (getItem ikey (polled env (retries + 1) j (sleep timeout env retries w)))
          (clock (polled env (retries + 1) j (sleep timeout env retries w))) expiresMs"
      if "j < maxRetries - (retries + 1)" for j
    proof -
      from that have "Suc j < maxRetries - retries" by simp
      from "1.prems"(2) [OF this] show ?thesis by simp
    qed
    have "lock_loop ikey expiresMs cb env (retries + 1) (sleep timeout env retries w) =
        (Inr (), False,
         polled env (retries + 1) (maxRetries - (retries + 1)) (sleep timeout env retries w))"
      using "1.IH" [OF refl busy refl refl True True later] by simp
    then show ?thesis
      using busy True unfold by (subst lock_loop.simps) (simp add: Let_def)
  next
    case False
    then have "maxRetries - retries = Suc 0"
      using "1.prems"(1) by simp
    then show ?thesis
      using busy False by (subst lock_loop.simps) (simp add: Let_def)
  qed
qed

text \<open>\<open>Number\<close> reads back what \<open>String\<close> wrote.\<close>

lemma digit_val_table:
  "list_all (\<lambda>k. digit_val (digit_char k) = Some k) [0..<10]"
  by code_simp

lemma digit_val_digit_char: "digit_val (digit_char d) = Some (d mod 10)"
proof -
  have "d mod 10 \<in> set [0..<10]" by simp
  with digit_val_table have "digit_val (digit_char (d mod 10)) = Some (d mod 10)"
    unfolding list_all_iff by blast
  then show ?thesis by (simp add: digit_char_def)
qed

lemma digits_val_append:
  "digits_val acc (xs @ ys) =
     (case digits_val acc xs of None \<Rightarrow> None | Some a \<Rightarrow> digits_val a ys)"
  by (induction xs arbitrary: acc) (simp_all split: option.splits)

lemma digits_val_nat_digits: "digits_val 0 (nat_digits n) = Some n"
proof (induction n rule: nat_digits.induct)
  case (1 n)
  show ?case
  proof (cases "n < 10")
    case True
    then show ?thesis
      by (subst nat_digits.simps) (simp add: digit_val_digit_char)
  next
    case False
    with "1.IH" have "digits_val 0 (nat_digits (n div 10)) = Some (n div 10)" by simp
    with False show ?thesis
      by (subst nat_digits.simps) (simp add: digits_val_append digit_val_digit_char)
  qed
qed

lemma nat_digits_head: "\<exists>c cs. nat_digits n = c # cs \<and> digit_val c \<noteq> None"
proof (induction n rule: nat_digits.induct)
  case (1 n)
  show ?case
  proof (cases "n < 10")
    case True
    then show ?thesis
      by (subst nat_digits.simps) (simp add: digit_val_digit_char)
  next
    case False
    with "1.IH" obtain c cs where "nat_digits (n div 10) = c # cs" "digit_val c \<noteq> None"
      by auto
    with False show ?thesis
      by (subst nat_digits.simps) simp
  qed
qed

lemma Number_js_String_js: "Number_js (String_js i) = Some i"
proof (cases "i < 0")
  case True
  obtain c cs where "nat_digits (nat (- i)) = c # cs"
    using nat_digits_head [of "nat (- i)"] by auto
  then show ?thesis
    using True digits_val_nat_digits [of "nat (- i)"]
    by (simp add: Number_js_def String_js_def)
next
  case False
  obtain c cs where d: "nat_digits (nat i) = c # cs" "digit_val c \<noteq> None"
    using nat_digits_head [of "nat i"] by auto
  have "c \<noteq> CHR ''-''" "c \<noteq> CHR ''+''"
    using d(2) by (auto simp: digit_val_def)
  then show ?thesis
    using False d(1) digits_val_nat_digits [of "nat i"]
    by (simp add: Number_js_def String_js_def)
qed

text \<open>
  A record that this code wrote at a clock reading \<open>t0\<close>, with the same lease, never passes
  the test at a later reading: the test asks for \<open>t0 > now\<close>.
\<close>

lemma own_record_never_expires:
  assumes "t0 \<le> now"
  shows "\<not> mutex_free (Some (String_js (t0 + expiresMs))) now expiresMs"
proof -
  obtain c cs where "nat_digits (nat (t0 + expiresMs)) = c # cs"
    using nat_digits_head [of "nat (t0 + expiresMs)"] by auto
  then have "String_js (t0 + expiresMs) \<noteq> []"
    by (simp add: String_js_def)
  then show ?thesis
    using assms by (simp add: mutex_free_def Number_js_String_js)
qed

text \<open>
  When the test succeeds, the round writes the record \<open>now + expiresMs\<close>, runs the callback
  and leaves the loop with the lock; \<open>localStorageLock\<close> then removes the record, also when
  the callback threw.
\<close>

lemma lock_loop_free:
  assumes "mutex_free (getItem ikey w) (clock w) expiresMs"
  shows "lock_loop ikey expiresMs cb env retries w =
     (fst (run_callback cb (setItem ikey (String_js (clock w + expiresMs)) w)), True,
      snd (run_callback cb (setItem ikey (String_js (clock w + expiresMs)) w)))"
  using assms by (subst lock_loop.simps) (simp add: Let_def split_beta)

lemma localStorageLock_absent:
  assumes "getItem (internalKey key) w = None"
  shows "localStorageLock key expiresMs cb env w =
     (fst (run_callback cb (setItem (internalKey key) (String_js (clock w + expiresMs)) w)),
      removeItem (internalKey key)
        (snd (run_callback cb (setItem (internalKey key) (String_js (clock w + expiresMs)) w))))"
proof -
  have free: "mutex_free (getItem (internalKey key) w) (clock w) expiresMs"
    using assms by (simp add: mutex_free_def)
  show ?thesis
    unfolding localStorageLock_def lock_loop_free [OF free] by simp
qed

text \<open>
  Claim C1, for the fallback path: a lock record that is absent or whose stored expiry lies
  before the current time does not block the acquirer, which writes a new record and runs
  the callback. The code tests \<open>Number(mutex) > Date.now() + expiresMs\<close> instead: a stored
  expiry in the past never passes it. With the record \<open>1000\<close> left behind, the clock at 2000
  and a lease of 500 ms, the test fails, the ten rounds only sleep, the callback does not
  run and the old record is still there at the end.
\<close>

theorem stale_lock_never_acquired:
  "Number_js ''1000'' = Some 1000
   \<and> mutex_free (getItem (internalKey ''auth_refresh'') stale_lock) (clock stale_lock) 500 = False
   \<and> fst (localStorageLock ''auth_refresh'' 500 idle_callback ticking stale_lock) = Inr ()
   \<and> trace (snd (localStorageLock ''auth_refresh'' 500 idle_callback ticking stale_lock))
       = replicate 10 (Slept 50)
   \<and> getItem (internalKey ''auth_refresh'')
        (snd (localStorageLock ''auth_refresh'' 500 idle_callback ticking stale_lock))
       = Some ''1000''"
  by code_simp

text \<open>
  Claim C8, for the fallback path: when the test of the loop fails at each of the
  \<open>maxRetries\<close> = 10 rounds, whatever the other contexts do in between, \<open>acquireMutex\<close>
  returns normally, and all it has done is sleep \<open>timeout\<close> = 50 ms ten times: the callback
  was not run, no lock record was written and none was removed.
\<close>

theorem acquireMutex_retries_exhausted:
  assumes "\<forall>j<maxRetries.
      \<not> mutex_free (getItem (internalKey key) (polled env 0 j w)) (clock (polled env 0 j w)) expiresMs"
  shows "acquireMutex False native key expiresMs cb env w = (Inr (), polled env 0 maxRetries w)
    \<and> trace (polled env 0 maxRetries w) = trace w @ replicate maxRetries (Slept timeout)"
proof -
  have "lock_loop (internalKey key) expiresMs cb env 0 w =
      (Inr (), False, polled env 0 (maxRetries - 0) w)"
    by (rule lock_loop_exhausted) (use assms in \<open>simp_all add: maxRetries_def\<close>)
  then show ?thesis
    by (simp add: acquireMutex_def localStorageLock_def trace_polled)
qed

text \<open>
  A lock written at time 1000 with a lease of 50 ms, and a holder that never releases it:
  every round finds it in force.
\<close>

theorem acquireMutex_retries_exhausted_witness:
  "list_all
     (\<lambda>j. \<not> mutex_free (getItem (internalKey ''auth_refresh'') (polled ticking 0 j held_lock))
            (clock (polled ticking 0 j held_lock)) 50)
     [0..<maxRetries]
   \<and> fst (acquireMutex False uncontended_native_lock ''auth_refresh'' 50 idle_callback ticking
            held_lock) = Inr ()
   \<and> trace (snd (acquireMutex False uncontended_native_lock ''auth_refresh'' 50 idle_callback
                   ticking held_lock))
       = replicate 10 (Slept 50)"
proof -
  have every: "list_all
     (\<lambda>j. \<not> mutex_free (getItem (internalKey ''auth_refresh'') (polled ticking 0 j held_lock))
            (clock (polled ticking 0 j held_lock)) 50)
     [0..<maxRetries]"
    by code_simp
  then have h: "\<forall>j<maxRetries.
      \<not> mutex_free (getItem (internalKey ''auth_refresh'') (polled ticking 0 j held_lock))
          (clock (polled ticking 0 j held_lock)) 50"
    by (simp add: list_all_iff)
  show ?thesis
    using every acquireMutex_retries_exhausted
        [OF h, of uncontended_native_lock idle_callback]
    by (simp add: maxRetries_def timeout_def held_lock_def)
qed

section \<open>The session: what each operation leaves unchanged\<close>

lemma timer_inv_cases:
  "timer_inv s \<longleftrightarrow> timers s = [] \<or> (\<exists>h d. timers s = [(h, d)] \<and> refreshTimeout s = Some h)"
  by (auto simp: timer_inv_def split: list.splits)

lemma refresh_frame [simp]:
  "timers (snd (refresh s)) = timers s"
  "refreshTimeout (snd (refresh s)) = refreshTimeout s"
  "authConfig (snd (refresh s)) = authConfig s"
  "listeners (snd (refresh s)) = listeners s"
  "outbox (snd (refresh s)) = outbox s"
  by (simp_all add: refresh_def awaitRefresh_call_def resetStorage_def Let_def)

lemma refresh_effect:
  "refreshPromise (snd (refresh s)) = Some (next_id s)"
  "fst (refresh s) = next_id s"
  "inflight (snd (refresh s)) = inflight s @ [next_id s]"
  "length (requests (snd (refresh s))) = Suc (length (requests s))"
  "storage (snd (refresh s)) = Some null_data"
  "outcome (snd (refresh s)) = outcome s"
  "next_id (snd (refresh s)) = Suc (next_id s)"
  by (simp_all add: refresh_def awaitRefresh_call_def resetStorage_def Let_def)

lemma storage_setCredentials: "storage (setCredentials now data s) = Some (stamped now data)"
  by (simp add: setCredentials_def setTimeout_def clearTimeout_def Let_def split: option.splits)

lemma on_message_frame [simp]:
  "timers (on_message msg s) = timers s"
  "refreshTimeout (on_message msg s) = refreshTimeout s"
  by (simp_all add: on_message_def sendMessage_def split: option.splits)

lemma fold_on_message_frame:
  "timers (fold (\<lambda>l. on_message msg) ls s) = timers s \<and>
   refreshTimeout (fold (\<lambda>l. on_message msg) ls s) = refreshTimeout s"
  by (induction ls arbitrary: s) simp_all

subsection \<open>At most one refresh timer is pending\<close>

lemma timer_inv_refresh: "timer_inv s \<Longrightarrow> timer_inv (snd (refresh s))"
  by (simp add: timer_inv_cases)

lemma timer_inv_setCredentials: "timer_inv s \<Longrightarrow> timer_inv (setCredentials now data s)"
  by (auto simp: timer_inv_cases setCredentials_def setTimeout_def clearTimeout_def Let_def
      split: option.splits)

lemma timer_inv_fire: "timer_inv s \<Longrightarrow> timer_inv (fire now h s)"
  by (auto simp: timer_inv_cases fire_def timer_callback_def clearTimeout_def list_ex_iff)

lemma timer_inv_refreshIfExpired: "timer_inv s \<Longrightarrow> timer_inv (snd (refreshIfExpired now s))"
  by (auto simp: refreshIfExpired_def Let_def timer_inv_refresh split: option.splits)

lemma timer_inv_getToken_resume:
  "timer_inv s \<Longrightarrow> getToken_resume awaited s = Some (r, s') \<Longrightarrow> timer_inv s'"
  by (auto simp: getToken_resume_def activeRefresh_resume_def timer_inv_cases
      split: option.splits sum.splits)

lemma timer_inv_awaitRefresh_resume:
  assumes "timer_inv s"
  shows "timer_inv (awaitRefresh_resume now p resp s)"
proof (cases resp)
  case (Inl err)
  with assms show ?thesis
    by (simp add: awaitRefresh_resume_def timer_inv_cases Let_def)
next
  case (Inr data)
  from assms have "timer_inv (s\<lparr>inflight := filter (\<lambda>q. q \<noteq> p) (inflight s)\<rparr>)"
    by (simp add: timer_inv_cases)
  then have "timer_inv (setCredentials now data (s\<lparr>inflight := filter (\<lambda>q. q \<noteq> p) (inflight s)\<rparr>))"
    by (rule timer_inv_setCredentials)
  with Inr show ?thesis
    by (simp add: awaitRefresh_resume_def timer_inv_cases Let_def)
qed

lemma timer_inv_login_resume:
  assumes "timer_inv s"
  shows "timer_inv (snd (login_resume now resp email password send_throws s))"
proof (cases resp)
  case (Inl err)
  with assms show ?thesis by (simp add: login_resume_def)
next
  case (Inr data)
  from assms have "timer_inv (setCredentials now data s)"
    by (rule timer_inv_setCredentials)
  with Inr show ?thesis
    by (simp add: login_resume_def realtime_login_def sendMessage_def timer_inv_cases Let_def)
qed

lemma timer_inv_logout_resume: "timer_inv s \<Longrightarrow> timer_inv (snd (logout_resume resp s))"
  by (cases resp)
     (auto simp: logout_resume_def timer_inv_cases clearTimeout_def resetStorage_def Let_def
      split: option.splits)

lemma timer_inv_ws_receive: "timer_inv s \<Longrightarrow> timer_inv (ws_receive msg s)"
  by (simp add: timer_inv_cases ws_receive_def fold_on_message_frame)

lemma reachable_timer_inv: "reachable s \<Longrightarrow> timer_inv s"
proof (induction rule: reachable.induct)
  case (start pf m cfg fs)
  show ?case by (simp add: timer_inv_cases authentication_def)
next
  case (login_sent s email password options)
  then show ?case by (simp add: timer_inv_cases login_call_def resetStorage_def Let_def)
next
  case (login_answered s now resp email password send_throws)
  then show ?case by (simp add: timer_inv_login_resume)
next
  case (logout_sent s)
  then show ?case by (simp add: timer_inv_cases logout_call_def)
next
  case (logout_answered s resp')
  then show ?case by (simp add: timer_inv_logout_resume)
next
  case (refresh_called s)
  then show ?case by (simp add: timer_inv_refresh)
next
  case (refresh_answered s p now resp)
  then show ?case by (simp add: timer_inv_awaitRefresh_resume)
next
  case (token_asked s now)
  then show ?case by (simp add: timer_inv_refreshIfExpired)
next
  case (token_read s awaited r s')
  then show ?case by (simp add: timer_inv_getToken_resume)
next
  case (token_set s tok)
  then show ?case by (simp add: timer_inv_cases setToken_def)
next
  case (timer_fired s now h)
  then show ?case by (simp add: timer_inv_fire)
next
  case (message s msg)
  then show ?case by (simp add: timer_inv_ws_receive)
qed

lemma reachable_logged_in: "reachable logged_in"
  unfolding logged_in_def login_def fresh_session_def
  by (intro reachable.intros)

subsection \<open>Joining a refresh\<close>

lemma refreshIfExpired_joins:
  "refreshPromise s \<noteq> None \<Longrightarrow> refreshIfExpired now s = (refreshPromise s, s)"
  by (simp add: refreshIfExpired_def)

lemma getToken_calls_joined: "refreshPromise s \<noteq> None \<Longrightarrow> getToken_calls nows s = s"
  by (induction nows) (simp_all add: refreshIfExpired_joins)

lemma refreshIfExpired_cases:
  "snd (refreshIfExpired now s) = s \<or> snd (refreshIfExpired now s) = snd (refresh s)"
  by (simp add: refreshIfExpired_def Let_def split: option.splits)

lemma getToken_calls_bound:
  "length (inflight (getToken_calls nows s)) \<le> Suc (length (inflight s))
   \<and> length (requests (getToken_calls nows s)) \<le> Suc (length (requests s))"
proof (induction nows arbitrary: s)
  case Nil
  show ?case by simp
next
  case (Cons now nows)
  from refreshIfExpired_cases [of now s] show ?case
  proof
    assume "snd (refreshIfExpired now s) = s"
    then show ?thesis using Cons.IH [of s] by simp
  next
    assume r: "snd (refreshIfExpired now s) = snd (refresh s)"
    have "refreshPromise (snd (refresh s)) \<noteq> None"
      by (simp add: refresh_effect)
    then have "getToken_calls nows (snd (refresh s)) = snd (refresh s)"
      by (rule getToken_calls_joined)
    then show ?thesis using r by (simp add: refresh_effect)
  qed
qed

lemma resume_joined_rejected:
  "outcome s p = Some (Inl err) \<Longrightarrow> fst (resume_joined n (Some p) s) = replicate n (Inl err)"
proof (induction n arbitrary: s)
  case 0
  show ?case by simp
next
  case (Suc n)
  have step: "getToken_resume (Some p) s = Some (Inl err, s\<lparr>refreshPromise := None\<rparr>)"
    using Suc.prems by (simp add: getToken_resume_def activeRefresh_resume_def)
  have "outcome (s\<lparr>refreshPromise := None\<rparr>) p = Some (Inl err)"
    using Suc.prems by simp
  from Suc.IH [OF this] show ?case
    using step by (simp add: split_beta)
qed

section \<open>The session: the claims\<close>

text \<open>
  A logout whose network call fails, in the session after a login: \<open>await request(...)\<close>
  throws, and the three cleanup statements after it do not run. The timer armed by the
  login is still pending, the message handler still installed, the access token still
  stored.
\<close>

theorem logout_failure_skips_cleanup:
  "fst (logout (Inl (Thrown ''offline'')) logged_in) = Inl (Thrown ''offline'')
   \<and> timers (snd (logout (Inl (Thrown ''offline'')) logged_in)) = [(1, 871000)]
   \<and> listeners (snd (logout (Inl (Thrown ''offline'')) logged_in)) = [2]
   \<and> stored_access_token (snd (logout (Inl (Thrown ''offline'')) logged_in)) = Some ''a''"
  by code_simp

text \<open>
  Claim C2, as the code has it: in every state a session can reach, a \<open>logout\<close> whose
  network call succeeds leaves no refresh timer pending, has removed the message handler
  that \<open>realtimeHandler\<close> names, and has reset the stored record to the all-null record. A
  \<open>logout\<close> whose network call fails passes the error on to its caller and has done nothing
  but send the request: timers, handlers and stored record are as before.
\<close>

theorem logout_cleanup_on_success:
  assumes "reachable s"
  shows "fst (logout (Inr u) s) = Inr ()
     \<and> timers (snd (logout (Inr u) s)) = []
     \<and> (\<forall>l. realtimeHandler s = Some l \<longrightarrow> l \<notin> set (listeners (snd (logout (Inr u) s))))
     \<and> storage (snd (logout (Inr u) s)) = Some null_data
     \<and> logout (Inl err) s = (Inl err, logout_call s)
     \<and> timers (logout_call s) = timers s
     \<and> listeners (logout_call s) = listeners s
     \<and> storage (logout_call s) = storage s"
proof -
  have inv: "timers s = [] \<or> (\<exists>h d. timers s = [(h, d)] \<and> refreshTimeout s = Some h)"
    using reachable_timer_inv [OF assms] by (simp add: timer_inv_cases)
  have cancelled: "timers (snd (logout (Inr u) s)) = []"
    using inv
    by (auto simp: logout_def logout_resume_def logout_call_def clearTimeout_def resetStorage_def
        Let_def split: option.splits)
  have cleaned: "fst (logout (Inr u) s) = Inr ()
     \<and> (\<forall>l. realtimeHandler s = Some l \<longrightarrow> l \<notin> set (listeners (snd (logout (Inr u) s))))
     \<and> storage (snd (logout (Inr u) s)) = Some null_data"
    by (auto simp: logout_def logout_resume_def logout_call_def clearTimeout_def resetStorage_def
        Let_def split: option.splits)
  have failed: "logout (Inl err) s = (Inl err, logout_call s)
     \<and> timers (logout_call s) = timers s
     \<and> listeners (logout_call s) = listeners s
     \<and> storage (logout_call s) = storage s"
    by (simp add: logout_def logout_resume_def logout_call_def)
  show ?thesis using cancelled cleaned failed by simp
qed

text \<open>The session after a login has a timer pending; a successful logout cancels it.\<close>

theorem logout_cleanup_on_success_witness:
  "reachable logged_in
   \<and> timers logged_in = [(1, 871000)]
   \<and> timers (snd (logout (Inr ()) logged_in)) = []
   \<and> storage (snd (logout (Inr ()) logged_in)) = Some null_data"
proof -
  have h: "reachable logged_in" by (rule reachable_logged_in)
  have t: "timers logged_in = [(1, 871000)]" by code_simp
  show ?thesis using h t logout_cleanup_on_success [OF h, of "()"] by blast
qed

text \<open>
  Two calls of \<open>refresh\<close> in a row on a new session: the first leaves its promise (1) in
  \<open>refreshPromise\<close>; the second returns another promise (2) and sends a second request
  while the first is still in flight.
\<close>

theorem refresh_twice_two_calls:
  "refreshPromise (snd (refresh fresh_session)) = Some 1
   \<and> fst (refresh (snd (refresh fresh_session))) = 2
   \<and> inflight (snd (refresh (snd (refresh fresh_session)))) = [1, 2]
   \<and> map path (requests (snd (refresh (snd (refresh fresh_session)))))
       = [''/auth/refresh'', ''/auth/refresh'']"
  by code_simp

text \<open>
  Claim C3, as the code has it: the test for an active refresh is in \<open>refreshIfExpired\<close>, the
  first step of \<open>getToken\<close>, not in \<open>refresh\<close>. When a refresh promise is active, \<open>getToken\<close>
  waits for that promise and changes nothing, so it sends no request; any number of
  \<open>getToken\<close> calls started one after the other send at most one refresh request between
  them. \<open>refresh\<close> itself always sends a new request and puts a new promise in
  \<open>refreshPromise\<close>, whether or not one is active.
\<close>

theorem getToken_joins_active_refresh:
  "(refreshPromise s = Some p \<longrightarrow>
      refreshIfExpired now s = (Some p, s) \<and> getToken_calls nows s = s)
   \<and> length (inflight (getToken_calls nows s)) \<le> Suc (length (inflight s))
   \<and> length (requests (getToken_calls nows s)) \<le> Suc (length (requests s))
   \<and> length (inflight (snd (refresh s))) = Suc (length (inflight s))
   \<and> length (requests (snd (refresh s))) = Suc (length (requests s))
   \<and> refreshPromise (snd (refresh s)) = Some (fst (refresh s))"
proof -
  have joins: "refreshPromise s = Some p \<longrightarrow>
      refreshIfExpired now s = (Some p, s) \<and> getToken_calls nows s = s"
    using refreshIfExpired_joins [of s now] getToken_calls_joined [of s nows] by auto
  have unguarded: "length (inflight (snd (refresh s))) = Suc (length (inflight s))
     \<and> length (requests (snd (refresh s))) = Suc (length (requests s))
     \<and> refreshPromise (snd (refresh s)) = Some (fst (refresh s))"
    by (simp add: refresh_effect)
  show ?thesis
    using joins getToken_calls_bound [of nows s] unguarded by blast
qed

text \<open>With a refresh in flight, three further \<open>getToken\<close> calls send nothing.\<close>

theorem getToken_joins_active_refresh_witness:
  "refreshPromise (snd (refresh fresh_session)) = Some 1
   \<and> refreshIfExpired 5000 (snd (refresh fresh_session)) = (Some 1, snd (refresh fresh_session))
   \<and> getToken_calls [5000, 6000, 7000] (snd (refresh fresh_session)) = snd (refresh fresh_session)"
proof -
  have h: "refreshPromise (snd (refresh fresh_session)) = Some 1" by code_simp
  show ?thesis
    using h getToken_joins_active_refresh
        [of "snd (refresh fresh_session)" 1 5000 "[5000, 6000, 7000]"]
    by blast
qed

text \<open>
  Credentials without a lifetime (\<open>expires\<close> is \<open>null\<close>) stored at time 1000: the stored
  \<open>expires_at\<close> is 1000, not \<open>null\<close>.
\<close>

theorem setCredentials_null_expires:
  "expires no_expiry = None
   \<and> stored_expires_at (setCredentials 1000 no_expiry fresh_session) = Some 1000"
  by code_simp

text \<open>
  Claim C4, as the code has it: after \<open>setCredentials\<close>, and so after a successful login or
  refresh, the stored \<open>expires_at\<close> is never \<open>null\<close>: it is the time of issuance plus
  \<open>expires\<close>, where a \<open>null\<close> \<open>expires\<close> counts as 0. It is not taken from the caller: whatever
  \<open>expires_at\<close> the record came with is overwritten.
\<close>

theorem setCredentials_expires_at:
  "storage (setCredentials now data s)
     = Some (data\<lparr>expires_at := Some (now + (case expires data of None \<Rightarrow> 0 | Some e \<Rightarrow> e))\<rparr>)
   \<and> setCredentials now (data\<lparr>expires_at := x\<rparr>) s = setCredentials now data s
   \<and> storage (snd (login_resume now (Inr data) email password send_throws s))
     = Some (data\<lparr>expires_at := Some (now + (case expires data of None \<Rightarrow> 0 | Some e \<Rightarrow> e))\<rparr>)
   \<and> storage (awaitRefresh_resume now p (Inr data) s)
     = Some (data\<lparr>expires_at := Some (now + (case expires data of None \<Rightarrow> 0 | Some e \<Rightarrow> e))\<rparr>)"
proof -
  have a: "stamped now data
      = data\<lparr>expires_at := Some (now + (case expires data of None \<Rightarrow> 0 | Some e \<Rightarrow> e))\<rparr>"
    by (simp add: stamped_def)
  have b: "setCredentials now (data\<lparr>expires_at := x\<rparr>) s = setCredentials now data s"
    by (simp add: setCredentials_def stamped_def)
  have c: "storage (snd (login_resume now (Inr data) email password send_throws s))
      = Some (stamped now data)"
    by (simp add: login_resume_def realtime_login_def sendMessage_def Let_def
        storage_setCredentials)
  have d: "storage (awaitRefresh_resume now p (Inr data) s) = Some (stamped now data)"
    by (simp add: awaitRefresh_resume_def Let_def storage_setCredentials)
  show ?thesis using a b c d by (simp add: storage_setCredentials)
qed




text \<open>
  Credentials with a lifetime of one second, under the default configuration (auto-refresh
  on, 30 seconds of lead): \<open>0 < expires < MAX_SAFE_INTEGER\<close>, and no timer is armed.
\<close>

theorem short_lifetime_arms_no_timer:
  "autoRefresh (authConfig fresh_session)
   \<and> expires short_lived = Some 1000
   \<and> (0::int) < 1000 \<and> 1000 < MAX_SAFE_INTEGER
   \<and> timers (setCredentials 0 short_lived fresh_session) = []"
  by code_simp

text \<open>A delay the platform leaves as it is.\<close>

lemma timer_delay_in_range:
  assumes "1 \<le> delay" and "delay \<le> TIMEOUT_MAX"
  shows "timer_delay pf delay = delay"
proof (cases pf)
  case Browser
  have "(delay + 2147483648) mod 4294967296 = delay + 2147483648"
    using assms by (simp add: TIMEOUT_MAX_def)
  with Browser assms(1) show ?thesis
    by (simp add: timer_delay_def)
next
  case Node
  with assms show ?thesis
    by (simp add: timer_delay_def)
qed

text \<open>
  A lifetime of 3000000 seconds, stored at time 1000 in a browser and in Node: the delay
  of 2999970000 ms is beyond what the platform's timers span, and the timer is due at
  once.
\<close>

lemma long_lifetime_due_at_once:
  "timers (setCredentials 1000 long_lived fresh_session) = [(1, 1000)]
   \<and> timers (setCredentials 1000 long_lived (fresh_session\<lparr>platform := Node\<rparr>)) = [(1, 1001)]"
  by code_simp

text \<open>
  Claim C6, as the code has it: the lower bound of the test is the lead time, not 0, and
  the platform's timers span at most \<open>TIMEOUT_MAX\<close> ms. In every state a session can reach,
  \<open>setCredentials\<close> with a lifetime \<open>e\<close>: when auto-refresh is on and
  \<open>msRefreshBeforeExpires < e < MAX_SAFE_INTEGER\<close>, exactly one timer is pending afterwards,
  the new one (a timer armed before has been cancelled), and when the delay
  \<open>e - msRefreshBeforeExpires\<close> is at most \<open>TIMEOUT_MAX\<close> it is due that delay from now; when
  \<open>e \<le> msRefreshBeforeExpires\<close>, timers are left as they were. At most one refresh timer is
  pending before and after.
\<close>

theorem setCredentials_arms_one_timer:
  assumes "reachable s" and "expires data = Some e"
  shows "(autoRefresh (authConfig s) \<and> msRefreshBeforeExpires (authConfig s) < e
            \<and> e < MAX_SAFE_INTEGER \<longrightarrow>
          timers (setCredentials now data s)
            = [(next_id s,
                now + timer_delay (platform s) (e - msRefreshBeforeExpires (authConfig s)))]
          \<and> refreshTimeout (setCredentials now data s) = Some (next_id s)
          \<and> (e - msRefreshBeforeExpires (authConfig s) \<le> TIMEOUT_MAX \<longrightarrow>
               timers (setCredentials now data s)
                 = [(next_id s, now + (e - msRefreshBeforeExpires (authConfig s)))]))
     \<and> (e \<le> msRefreshBeforeExpires (authConfig s) \<longrightarrow>
          timers (setCredentials now data s) = timers s
          \<and> refreshTimeout (setCredentials now data s) = refreshTimeout s)
     \<and> length (timers s) \<le> 1
     \<and> length (timers (setCredentials now data s)) \<le> 1"
proof -
  have inv: "timers s = [] \<or> (\<exists>h d. timers s = [(h, d)] \<and> refreshTimeout s = Some h)"
    using reachable_timer_inv [OF assms(1)] by (simp add: timer_inv_cases)
  then have before: "length (timers s) \<le> 1" by auto
  have "timer_inv (setCredentials now data s)"
    using reachable_timer_inv [OF assms(1)] by (rule timer_inv_setCredentials)
  then have after: "length (timers (setCredentials now data s)) \<le> 1"
    by (auto simp: timer_inv_cases)
  have armed: "timers (setCredentials now data s)
            = [(next_id s,
                now + timer_delay (platform s) (e - msRefreshBeforeExpires (authConfig s)))]
          \<and> refreshTimeout (setCredentials now data s) = Some (next_id s)"
    if "autoRefresh (authConfig s)" "msRefreshBeforeExpires (authConfig s) < e"
      "e < MAX_SAFE_INTEGER"
    using inv that assms(2)
    by (auto simp: setCredentials_def setTimeout_def clearTimeout_def Let_def split: option.splits)
  have on_time: "timer_delay (platform s) (e - msRefreshBeforeExpires (authConfig s))
      = e - msRefreshBeforeExpires (authConfig s)"
    if "msRefreshBeforeExpires (authConfig s) < e"
      "e - msRefreshBeforeExpires (authConfig s) \<le> TIMEOUT_MAX"
    using that by (intro timer_delay_in_range) simp_all
  have skipped: "timers (setCredentials now data s) = timers s
          \<and> refreshTimeout (setCredentials now data s) = refreshTimeout s"
    if "e \<le> msRefreshBeforeExpires (authConfig s)"
    using that assms(2) by (simp add: setCredentials_def)
  show ?thesis using before after armed on_time skipped by metis
qed

text \<open>
  The session after a login has the timer of the login pending; storing new credentials at
  time 5000 replaces it by one due 870000 ms later.
\<close>

theorem setCredentials_arms_one_timer_witness:
  "reachable logged_in
   \<and> expires issued = Some 900000
   \<and> autoRefresh (authConfig logged_in)
   \<and> msRefreshBeforeExpires (authConfig logged_in) < 900000
   \<and> (900000 :: int) < MAX_SAFE_INTEGER
   \<and> 900000 - msRefreshBeforeExpires (authConfig logged_in) \<le> TIMEOUT_MAX
   \<and> timers logged_in = [(1, 871000)]
   \<and> timers (setCredentials 5000 issued logged_in)
        = [(next_id logged_in, 5000 + (900000 - msRefreshBeforeExpires (authConfig logged_in)))]
   \<and> timers (setCredentials 5000 issued logged_in) = [(3, 875000)]"
proof -
  have h1: "reachable logged_in" by (rule reachable_logged_in)
  have h2: "expires issued = Some 900000" by code_simp
  have h3: "autoRefresh (authConfig logged_in)" by code_simp
  have h4: "msRefreshBeforeExpires (authConfig logged_in) < 900000" by code_simp
  have h5: "(900000 :: int) < MAX_SAFE_INTEGER" by code_simp
  have h6: "900000 - msRefreshBeforeExpires (authConfig logged_in) \<le> TIMEOUT_MAX" by code_simp
  have t: "timers logged_in = [(1, 871000)]" by code_simp
  have v: "timers (setCredentials 5000 issued logged_in) = [(3, 875000)]" by code_simp
  show ?thesis
    using h1 h2 h3 h4 h5 h6 t v setCredentials_arms_one_timer [OF h1 h2, of 5000]
    by blast
qed

text \<open>
  Claim C7: when the network call of a refresh fails, the promise that \<open>refresh\<close> returned
  is rejected with that error, which is what a direct caller of \<open>refresh\<close> gets; every
  \<open>getToken\<close> caller that waited for the promise gets the error too, however many there
  are; the stored record is the all-null record that \<open>refresh\<close> left; and the failure
  sends no further request and arms no timer, so nothing retries the refresh. In any
  state, the failure of a refresh call writes neither the storage, nor the requests, nor
  the timers.
\<close>

theorem refresh_failure_propagates:
  "outcome (awaitRefresh_resume now (fst (refresh s)) (Inl err) (snd (refresh s))) (fst (refresh s))
     = Some (Inl err)
   \<and> fst (resume_joined n (Some (fst (refresh s)))
            (awaitRefresh_resume now (fst (refresh s)) (Inl err) (snd (refresh s))))
     = replicate n (Inl err)
   \<and> storage (awaitRefresh_resume now (fst (refresh s)) (Inl err) (snd (refresh s)))
     = Some null_data
   \<and> requests (awaitRefresh_resume now (fst (refresh s)) (Inl err) (snd (refresh s)))
     = requests (snd (refresh s))
   \<and> timers (awaitRefresh_resume now (fst (refresh s)) (Inl err) (snd (refresh s))) = timers s
   \<and> fst (refresh s)
       \<notin> set (inflight (awaitRefresh_resume now (fst (refresh s)) (Inl err) (snd (refresh s))))
   \<and> storage (awaitRefresh_resume now p (Inl err) t) = storage t
   \<and> requests (awaitRefresh_resume now p (Inl err) t) = requests t
   \<and> timers (awaitRefresh_resume now p (Inl err) t) = timers t"
proof -
  let ?p = "fst (refresh s)"
  let ?s2 = "awaitRefresh_resume now ?p (Inl err) (snd (refresh s))"
  have rejected: "outcome ?s2 ?p = Some (Inl err)"
    by (simp add: awaitRefresh_resume_def Let_def)
  have joined: "fst (resume_joined n (Some ?p) ?s2) = replicate n (Inl err)"
    using rejected by (rule resume_joined_rejected)
  have cleared: "storage ?s2 = Some null_data"
    by (simp add: awaitRefresh_resume_def Let_def refresh_effect)
  have no_request: "requests ?s2 = requests (snd (refresh s))"
    by (simp add: awaitRefresh_resume_def Let_def)
  have no_timer: "timers ?s2 = timers s"
    by (simp add: awaitRefresh_resume_def Let_def)
  have settled: "?p \<notin> set (inflight ?s2)"
    by (simp add: awaitRefresh_resume_def Let_def)
  have untouched: "storage (awaitRefresh_resume now p (Inl err) t) = storage t
     \<and> requests (awaitRefresh_resume now p (Inl err) t) = requests t
     \<and> timers (awaitRefresh_resume now p (Inl err) t) = timers t"
    by (simp add: awaitRefresh_resume_def Let_def)
  show ?thesis
    using rejected joined cleared no_request no_timer settled untouched by blast
qed

text \<open>
  An \<open>ok\<close> message whose \<open>refresh_token\<close> is the empty text, then the expiry message: the
  empty text is recorded, it is falsy, and nothing is sent.
\<close>

theorem empty_rotation_token_not_resent:
  "realtimeRefresh (on_message (Some (auth_ok [])) logged_in) = Some []
   \<and> outbox (on_message (Some token_expired) (on_message (Some (auth_ok [])) logged_in))
       = outbox logged_in"
  by code_simp

text \<open>
  Claim C9, as the code has it: the handler sends when the recorded token is truthy. For an
  \<open>auth\<close> message with status \<open>ok\<close> and refresh token \<open>R\<close>, followed by an \<open>auth\<close> message with
  status \<open>error\<close> and code \<open>TOKEN_EXPIRED\<close>: when \<open>R\<close> is not empty, exactly one message is
  sent, \<open>{type: auth, refresh_token: R}\<close>; when \<open>R\<close> is empty, none. On the expiry message
  alone, with no token recorded, none is sent.
\<close>

theorem reauth_handshake:
  assumes "msg_type ok = Some ''auth''" and "msg_status ok = Some ''ok''"
    and "msg_refresh_token ok = Some R"
    and "msg_type ex = Some ''auth''" and "msg_status ex = Some ''error''"
    and "msg_error_code ex = Some ''TOKEN_EXPIRED''"
  shows "(R \<noteq> [] \<longrightarrow> outbox (on_message (Some ex) (on_message (Some ok) s))
                        = outbox s @ [AuthRefreshToken R])
     \<and> (R = [] \<longrightarrow> outbox (on_message (Some ex) (on_message (Some ok) s)) = outbox s)
     \<and> (realtimeRefresh s = None \<longrightarrow> outbox (on_message (Some ex) s) = outbox s)"
proof -
  have recorded: "on_message (Some ok) s = s\<lparr>realtimeRefresh := Some R\<rparr>"
    using assms(1-3) by (simp add: on_message_def msg_field_def)
  have expiry: "on_message (Some ex) t =
      (case realtimeRefresh t of
         None \<Rightarrow> t
       | Some r \<Rightarrow> if r \<noteq> [] then sendMessage (AuthRefreshToken r) t else t)" for t
    using assms(4-6) by (simp add: on_message_def msg_field_def)
  show ?thesis
    by (simp add: recorded expiry sendMessage_def)
qed

theorem reauth_handshake_witness:
  "msg_type (auth_ok ''R'') = Some ''auth'' \<and> msg_status (auth_ok ''R'') = Some ''ok''
   \<and> msg_refresh_token (auth_ok ''R'') = Some ''R''
   \<and> msg_type token_expired = Some ''auth'' \<and> msg_status token_expired = Some ''error''
   \<and> msg_error_code token_expired = Some ''TOKEN_EXPIRED''
   \<and> ''R'' \<noteq> []
   \<and> realtimeRefresh logged_in = None
   \<and> outbox (on_message (Some token_expired) (on_message (Some (auth_ok ''R'')) logged_in))
       = outbox logged_in @ [AuthRefreshToken ''R'']
   \<and> outbox (on_message (Some token_expired) logged_in) = outbox logged_in"
proof -
  have h1: "msg_type (auth_ok ''R'') = Some ''auth''" by (simp add: auth_ok_def)
  have h2: "msg_status (auth_ok ''R'') = Some ''ok''" by (simp add: auth_ok_def)
  have h3: "msg_refresh_token (auth_ok ''R'') = Some ''R''" by (simp add: auth_ok_def)
  have h4: "msg_type token_expired = Some ''auth''" by (simp add: token_expired_def)
  have h5: "msg_status token_expired = Some ''error''" by (simp add: token_expired_def)
  have h6: "msg_error_code token_expired = Some ''TOKEN_EXPIRED''"
    by (simp add: token_expired_def)
  have h7: "''R'' \<noteq> []" by simp
  have h8: "realtimeRefresh logged_in = None" by code_simp
  show ?thesis
    using h1 h2 h3 h4 h5 h6 h7 h8 reauth_handshake [OF h1 h2 h3 h4 h5 h6, of logged_in]
    by blast
qed





end
